theory Spec2Isabelle
  imports Complex_Main "HOL-Library.Product_Lexorder" "HOL-Library.List_Lexorder"
    "HOL-Library.Sublist" "HOL-Library.Multiset"
begin

section \<open>Data model of app.py\<close>

text \<open>
  The script works on one pandas DataFrame. A cell is a missing value (NaN, NaT), a number,
  a string, or a timestamp made of a calendar date (a day number) and a time of day.
  Numbers are exact rationals. This idealises the arithmetic: pandas adds 64-bit floats,
  whose rounding depends on the order of the additions, and 64-bit integers, which wrap
  around. No statement below is made that would hold only for exact sums of a column read
  in another order.
\<close>

datatype cell = NA | Num rat | Str string | Ts int nat

datatype py_error = TypeError | ValueError | StreamlitInvalidMinMaxError

text \<open>
  A DataFrame: the column names in order, and the rows in order, each row with its index
  label and one cell per column. Column names come from selectboxes filled from
  \<open>df.columns\<close>, so a lookup by name never misses; a name that is absent reads as
  missing here.
\<close>

record table =
  columns :: "string list"
  rows :: "(nat \<times> cell list) list"

fun col_pos :: "string list \<Rightarrow> string \<Rightarrow> nat option" where
  "col_pos [] c = None"
| "col_pos (x # xs) c = (if x = c then Some 0 else map_option Suc (col_pos xs c))"

definition cell_at :: "table \<Rightarrow> string \<Rightarrow> cell list \<Rightarrow> cell" where
  "cell_at df c cs =
     (case col_pos (columns df) c of
        None \<Rightarrow> NA
      | Some i \<Rightarrow> if i < length cs then cs ! i else NA)"

text \<open>\<open>df[c]\<close>: the values of a column, in row order.\<close>

definition getitem :: "table \<Rightarrow> string \<Rightarrow> cell list" where
  "getitem df c = map (\<lambda>r. cell_at df c (snd r)) (rows df)"

text \<open>\<open>df[c] = vs\<close>: the column is replaced value by value (a new name adds a column).\<close>

definition setitem :: "table \<Rightarrow> string \<Rightarrow> cell list \<Rightarrow> table" where
  "setitem df c vs =
     (case col_pos (columns df) c of
        Some i \<Rightarrow> df\<lparr>rows := map (\<lambda>(r, v). (fst r, (snd r)[i := v])) (zip (rows df) vs)\<rparr>
      | None \<Rightarrow> df\<lparr>columns := columns df @ [c],
                   rows := map (\<lambda>(r, v). (fst r, snd r @ [v])) (zip (rows df) vs)\<rparr>)"

text \<open>\<open>df.dropna(subset=[c])\<close>: the rows whose cell in column c is not missing.\<close>

definition dropna :: "table \<Rightarrow> string \<Rightarrow> table" where
  "dropna df c = df\<lparr>rows := filter (\<lambda>r. cell_at df c (snd r) \<noteq> NA) (rows df)\<rparr>"

text \<open>\<open>.dt.date\<close> of a cell: the calendar date of a timestamp, the time of day dropped.\<close>

fun dt_date :: "cell \<Rightarrow> int option" where
  "dt_date (Ts d t) = Some d"
| "dt_date _ = None"

fun ts_cell :: "(int \<times> nat) option \<Rightarrow> cell" where
  "ts_cell None = NA"
| "ts_cell (Some p) = Ts (fst p) (snd p)"

text \<open>
  \<open>df[(df[c].dt.date >= start) & (df[c].dt.date <= end)]\<close>: a comparison with a missing
  date is false.
\<close>

definition in_range :: "int \<Rightarrow> int \<Rightarrow> cell \<Rightarrow> bool" where
  "in_range start stop c =
     (case dt_date c of None \<Rightarrow> False | Some d \<Rightarrow> start \<le> d \<and> d \<le> stop)"

definition between_dates :: "table \<Rightarrow> string \<Rightarrow> int \<Rightarrow> int \<Rightarrow> table" where
  "between_dates df c start stop =
     df\<lparr>rows := filter (\<lambda>r. in_range start stop (cell_at df c (snd r))) (rows df)\<rparr>"

section \<open>Date filtering (lines 63 to 88)\<close>

text \<open>
  \<open>pd.to_datetime(column, errors="coerce")\<close> belongs to pandas: it is the parameter
  \<open>to_datetime\<close>, from the values of a column to one parsed timestamp or \<open>None\<close> (NaT)
  per value. The date range is what \<open>st.sidebar.date_input\<close> returns, a parameter too;
  \<open>date_col\<close> is \<open>None\<close> for the selectbox entry "None".
\<close>

definition date_filter ::
  "(cell list \<Rightarrow> (int \<times> nat) option list) \<Rightarrow> table \<Rightarrow> string option \<Rightarrow> int \<times> int \<Rightarrow> table"
where
  "date_filter to_datetime df date_col rng =
     (case date_col of
        None \<Rightarrow> df
      | Some dc \<Rightarrow>
          let parsed = setitem df dc (map ts_cell (to_datetime (getitem df dc)));
              valid = dropna parsed dc
          in if rows valid \<noteq> [] then between_dates valid dc (fst rng) (snd rng) else valid)"

section \<open>Reductions of a column\<close>

fun nums :: "cell list \<Rightarrow> rat list" where
  "nums [] = []"
| "nums (Num x # cs) = x # nums cs"
| "nums (c # cs) = nums cs"

text \<open>
  \<open>Series.sum()\<close>, \<open>.mean()\<close> and \<open>.max()\<close> of a numeric column skip missing values;
  the sum of no value is 0, the mean and the maximum of no value are NaN, \<open>None\<close> here.
  On a column of timestamps pandas raises instead; the pass below checks for that before
  it reduces the metric column.
\<close>

definition series_sum :: "cell list \<Rightarrow> rat" where
  "series_sum cs = sum_list (nums cs)"

definition series_mean :: "cell list \<Rightarrow> rat option" where
  "series_mean cs =
     (if nums cs = [] then None else Some (sum_list (nums cs) / of_nat (length (nums cs))))"

definition series_max :: "cell list \<Rightarrow> rat option" where
  "series_max cs = (if nums cs = [] then None else Some (Max (set (nums cs))))"

fun is_number :: "cell \<Rightarrow> bool" where
  "is_number NA = True"
| "is_number (Num x) = True"
| "is_number _ = False"

definition numeric_series :: "cell list \<Rightarrow> bool" where
  "numeric_series cs = list_all is_number cs"

text \<open>
  \<open>df.select_dtypes(include="number").columns.tolist()\<close>. The type of a column is the one
  \<open>read_csv\<close> gave it: numeric when the file has rows and every value of the column is a
  number or missing. A file with a header and no rows gives columns of type object, none
  of them numeric.
\<close>

definition numeric_cols :: "table \<Rightarrow> string list" where
  "numeric_cols df =
     (if rows df = [] then []
      else filter (\<lambda>c. numeric_series (getitem df c)) (columns df))"

section \<open>Grouping\<close>

text \<open>
  \<open>groupby(key)[value_col].sum().reset_index()\<close>: one row per distinct key, the keys in
  ascending order (\<open>sort=True\<close> is the default of groupby), each with the sum of its rows'
  values.
\<close>

definition groupby_sum :: "('k \<Rightarrow> 'o::linorder) \<Rightarrow> ('k \<times> cell) list \<Rightarrow> ('k \<times> rat) list" where
  "groupby_sum rank kvs =
     map (\<lambda>k. (k, series_sum (map snd (filter (\<lambda>p. fst p = k) kvs))))
       (sort_key rank (remdups (map fst kvs)))"

text \<open>
  The order of group keys: numbers by value, strings by code point, timestamps by date
  and time; with \<open>dropna=False\<close> the missing key is a group of its own, placed last.
  A column holds values of one kind; between kinds, numbers come before strings.
\<close>

fun cell_rank :: "cell \<Rightarrow> nat \<times> rat \<times> nat list \<times> int \<times> nat" where
  "cell_rank (Num x) = (0, x, [], 0, 0)"
| "cell_rank (Str s) = (1, 0, map of_char s, 0, 0)"
| "cell_rank (Ts d t) = (2, 0, [], d, t)"
| "cell_rank NA = (3, 0, [], 0, 0)"

text \<open>
  Lines 114 to 119. The key is the series \<open>filtered_df[date_col].dt.date\<close>; groupby drops
  the rows whose key is missing (\<open>dropna=True\<close>).
\<close>

definition ts_df :: "table \<Rightarrow> string \<Rightarrow> string \<Rightarrow> (int \<times> rat) list" where
  "ts_df filtered_df date_col value_col =
     groupby_sum id
       (concat (map (\<lambda>r. case dt_date (cell_at filtered_df date_col (snd r)) of
                            None \<Rightarrow> []
                          | Some d \<Rightarrow> [(d, cell_at filtered_df value_col (snd r))])
                    (rows filtered_df)))"

text \<open>
  \<open>sort_values(value_col, ascending=False)\<close> sorts with pandas' default algorithm,
  quicksort, which is not stable: the order it gives to rows with equal sums is not
  documented and depends on the build of numpy. The sort is therefore the parameter
  \<open>sort_values\<close>, of which only this is known: its result holds the same rows, in
  descending order of the sum.
\<close>

definition sorts_descending :: "((cell \<times> rat) list \<Rightarrow> (cell \<times> rat) list) \<Rightarrow> bool" where
  "sorts_descending sort_values =
     (\<forall>xs. mset (sort_values xs) = mset xs
         \<and> sorted_wrt (\<lambda>a b. snd b \<le> snd a) (sort_values xs))"

text \<open>
  Lines 141 to 147. \<open>reset_index()\<close> inserts the group key as a column named
  \<open>group_col\<close> beside the sums, named \<open>value_col\<close>; when the two names are the same pandas
  raises ValueError (cannot insert, already exists).
\<close>

definition bar_df ::
  "((cell \<times> rat) list \<Rightarrow> (cell \<times> rat) list) \<Rightarrow> table \<Rightarrow> string \<Rightarrow> string
     \<Rightarrow> py_error + (cell \<times> rat) list"
where
  "bar_df sort_values filtered_df group_col value_col =
     (if group_col = value_col then Inl ValueError
      else Inr (sort_values
             (groupby_sum cell_rank
                (zip (getitem filtered_df group_col) (getitem filtered_df value_col)))))"

section \<open>Paging (lines 160 to 171)\<close>

text \<open>Python's \<open>//\<close> on integers is floor division, as \<open>div\<close> on \<open>int\<close> is.\<close>

definition total_pages :: "int \<Rightarrow> int \<Rightarrow> int" where
  "total_pages n bars_per_page = (n - 1) div bars_per_page + 1"

text \<open>\<open>xs.iloc[start:stop]\<close>, with Python's reading of negative and too large bounds.\<close>

definition slice_bound :: "nat \<Rightarrow> int \<Rightarrow> nat" where
  "slice_bound n i = (if i < 0 then nat (max 0 (int n + i)) else min (nat i) n)"

definition iloc :: "'a list \<Rightarrow> int \<Rightarrow> int \<Rightarrow> 'a list" where
  "iloc xs start stop =
     (let s = slice_bound (length xs) start; e = slice_bound (length xs) stop
      in take (e - s) (drop s xs))"

definition page_df :: "'a list \<Rightarrow> int \<Rightarrow> int \<Rightarrow> 'a list" where
  "page_df bar bars_per_page page =
     (let start = (page - 1) * bars_per_page; stop = start + bars_per_page
      in iloc bar start stop)"

section \<open>One pass of the script\<close>

text \<open>
  What a pass shows, in order: messages, the three metrics, and the data handed to each
  plot. The formatting of numbers and the drawing are left to Streamlit and matplotlib.
\<close>

datatype element =
    Error string
  | Warning string
  | Info string
  | Metric string "rat option"
  | LinePlot "(int \<times> rat) list"
  | BarPlot int int "(cell \<times> rat) list"
  | Hist "cell list"

datatype status = Finished | Stopped | Raised py_error

text \<open>Lines 94 to 100. A sum is a number; a mean or a maximum may be NaN.\<close>

definition key_metrics :: "table \<Rightarrow> string \<Rightarrow> element list" where
  "key_metrics filtered_df value_col =
     [Metric ''Total'' (Some (series_sum (getitem filtered_df value_col))),
      Metric ''Average'' (series_mean (getitem filtered_df value_col)),
      Metric ''Max'' (series_max (getitem filtered_df value_col))]"

text \<open>Lines 107 to 134.\<close>

definition time_series :: "table \<Rightarrow> string option \<Rightarrow> string \<Rightarrow> element" where
  "time_series filtered_df date_col value_col =
     (case date_col of
        None \<Rightarrow> Info ''Select a date column to view time series.''
      | Some dc \<Rightarrow>
          if length (ts_df filtered_df dc value_col) < 2
          then Warning ''Not enough data for time series.''
          else LinePlot (ts_df filtered_df dc value_col))"

text \<open>
  Lines 137 to 187. \<open>bars_per_page\<close> and \<open>page\<close> are the values of the two sliders.
  The page slider is made with \<open>min_value=1\<close> and \<open>max_value=total_pages\<close>: Streamlit
  raises StreamlitInvalidMinMaxError when the maximum does not exceed the minimum, which
  is whenever there is one page only; otherwise its value lies between 1 and
  \<open>total_pages\<close>. \<open>ax2.barh\<close> raises TypeError when a key on the page is missing, a label
  that is not a string.
\<close>

definition grouped_bar ::
  "((cell \<times> rat) list \<Rightarrow> (cell \<times> rat) list) \<Rightarrow> table \<Rightarrow> string \<Rightarrow> string \<Rightarrow> int \<Rightarrow> int
     \<Rightarrow> py_error + element"
where
  "grouped_bar sort_values filtered_df group_col value_col bars_per_page page =
     (case bar_df sort_values filtered_df group_col value_col of
        Inl e \<Rightarrow> Inl e
      | Inr bar \<Rightarrow>
          if bar = [] then Inr (Warning ''No data to display.'')
          else if total_pages (int (length bar)) bars_per_page \<le> 1
          then Inl StreamlitInvalidMinMaxError
          else if NA \<in> set (map fst (page_df bar bars_per_page page)) then Inl TypeError
          else Inr (BarPlot page (total_pages (int (length bar)) bars_per_page)
                      (page_df bar bars_per_page page)))"

text \<open>
  Lines 37 to 199, for a loaded table and the values of the widgets. \<open>st.stop()\<close> ends the
  pass; an exception ends it too, after what was shown before. \<open>Series.sum()\<close> on a column
  of timestamps raises TypeError, which happens when the metric column is the date column.
  \<open>ax3.hist\<close> raises ValueError when the metric column has no value at all, since the
  range of the bins is then not finite.
\<close>

definition app ::
  "(cell list \<Rightarrow> (int \<times> nat) option list) \<Rightarrow> ((cell \<times> rat) list \<Rightarrow> (cell \<times> rat) list)
     \<Rightarrow> table \<Rightarrow> string \<Rightarrow> string \<Rightarrow> string option \<Rightarrow> int \<times> int \<Rightarrow> int \<Rightarrow> int
     \<Rightarrow> element list \<times> status"
where
  "app to_datetime sort_values df value_col group_col date_col rng bars_per_page page =
     (if numeric_cols df = [] then ([Error ''No numeric columns found in this CSV.''], Stopped)
      else
        let filtered_df = date_filter to_datetime df date_col rng in
        if rows filtered_df = [] then ([Warning ''No data available after filtering.''], Stopped)
        else if \<not> numeric_series (getitem filtered_df value_col) then ([], Raised TypeError)
        else
          let shown = key_metrics filtered_df value_col
                        @ [time_series filtered_df date_col value_col]
          in case grouped_bar sort_values filtered_df group_col value_col bars_per_page page of
               Inl e \<Rightarrow> (shown, Raised e)
             | Inr bars \<Rightarrow>
                 if nums (getitem filtered_df value_col) = [] then (shown @ [bars], Raised ValueError)
                 else (shown @ [bars, Hist (getitem filtered_df value_col)], Finished))"

section \<open>The date block on the objects it touches\<close>

text \<open>
  Lines 63 to 88 again, with the objects made explicit.
  Python variables hold references. \<open>df.copy()\<close>, \<open>dropna\<close> and indexing with a mask
  each make a new DataFrame; \<open>filtered_df[date_col] = ...\<close> changes, in place, the object
  that \<open>filtered_df\<close> refers to. The heap is the list of the objects made so far, a
  reference is a position in it.
\<close>

record session =
  heap :: "table list"
  df_ref :: nat
  filtered_ref :: nat

definition new_object :: "table \<Rightarrow> session \<Rightarrow> session" where
  "new_object t s = s\<lparr>heap := heap s @ [t], filtered_ref := length (heap s)\<rparr>"

definition date_block ::
  "(cell list \<Rightarrow> (int \<times> nat) option list) \<Rightarrow> string option \<Rightarrow> int \<times> int \<Rightarrow> session \<Rightarrow> session"
where
  "date_block to_datetime date_col rng s0 =
     (let s1 = new_object (heap s0 ! df_ref s0) s0 in
      case date_col of
        None \<Rightarrow> s1
      | Some dc \<Rightarrow>
          let target = filtered_ref s1;
              s2 = s1\<lparr>heap := (heap s1)[target :=
                     setitem (heap s1 ! target) dc
                       (map ts_cell (to_datetime (getitem (heap s1 ! target) dc)))]\<rparr>;
              s3 = new_object (dropna (heap s2 ! filtered_ref s2) dc) s2
          in if rows (heap s3 ! filtered_ref s3) \<noteq> []
             then new_object
                    (between_dates (heap s3 ! filtered_ref s3) dc (fst rng) (snd rng)) s3
             else s3)"

section \<open>Notions used in the proofs\<close>

text \<open>What a cell adds to a sum that skips missing values.\<close>

fun num_or_zero :: "cell \<Rightarrow> rat" where
  "num_or_zero (Num x) = x"
| "num_or_zero _ = 0"

text \<open>The sum of the values paired with one key.\<close>

definition group_total :: "('k \<times> cell) list \<Rightarrow> 'k \<Rightarrow> rat" where
  "group_total kvs k = series_sum (map snd (filter (\<lambda>p. fst p = k) kvs))"

section \<open>Sample inputs\<close>

text \<open>
  An instance of the \<open>to_datetime\<close> parameter for the examples: it keeps timestamps, reads
  the ISO dates listed (as day numbers since 1970-01-01, at midnight) and finds everything
  else unparseable.
\<close>

definition iso_days :: "(string \<times> int) list" where
  "iso_days = [(''2024-01-01'', 19723), (''2024-01-02'', 19724), (''2024-01-03'', 19725)]"

fun to_datetime_cell :: "cell \<Rightarrow> (int \<times> nat) option" where
  "to_datetime_cell (Ts d t) = Some (d, t)"
| "to_datetime_cell (Str s) = map_option (\<lambda>d. (d, 0)) (map_of iso_days s)"
| "to_datetime_cell _ = None"

definition to_datetime_sample :: "cell list \<Rightarrow> (int \<times> nat) option list" where
  "to_datetime_sample cs = map to_datetime_cell cs"

text \<open>
  An instance of the \<open>sort_values\<close> parameter for the examples: an ascending sort,
  reversed.
\<close>

definition sort_values_sample :: "(cell \<times> rat) list \<Rightarrow> (cell \<times> rat) list" where
  "sort_values_sample xs = rev (sort_key snd xs)"

definition sales :: table where
  "sales = \<lparr>columns = [''date'', ''region'', ''amount''],
            rows = [(0, [Str ''2024-01-01'', Str ''east'', Num 10]),
                    (1, [Str ''2024-01-01'', Str ''west'', Num 5]),
                    (2, [Str ''2024-01-02'', Str ''east'', Num 7])]\<rparr>"

definition one_day :: table where
  "one_day = \<lparr>columns = [''date'', ''region'', ''amount''],
              rows = [(0, [Str ''2024-01-01'', Str ''east'', Num 10]),
                      (1, [Str ''soon'', Str ''east'', Num 1]),
                      (2, [Str ''2024-01-01'', Str ''west'', Num 5])]\<rparr>"

definition gap_days :: table where
  "gap_days = \<lparr>columns = [''date'', ''region'', ''amount''],
               rows = [(0, [Str ''2024-01-01'', Str ''east'', Num 10]),
                       (1, [Str ''2024-01-03'', Str ''west'', Num 5])]\<rparr>"

definition bad_dates :: table where
  "bad_dates = \<lparr>columns = [''date'', ''amount''],
                rows = [(0, [Str ''n/a'', Num 1]), (1, [Str ''soon'', Num 2])]\<rparr>"

definition west_first :: table where
  "west_first = \<lparr>columns = [''region'', ''amount''],
                 rows = [(0, [Str ''west'', Num 5]), (1, [Str ''east'', Num 5])]\<rparr>"

definition east_first :: table where
  "east_first = \<lparr>columns = [''region'', ''amount''],
                 rows = [(0, [Str ''east'', Num 5]), (1, [Str ''west'', Num 5])]\<rparr>"

definition no_amounts :: table where
  "no_amounts = \<lparr>columns = [''region'', ''amount''],
                 rows = [(0, [Str ''east'', NA]), (1, [Str ''west'', NA])]\<rparr>"

definition some_regions :: table where
  "some_regions = \<lparr>columns = [''region'', ''amount''],
                   rows = [(0, [NA, Num 3]), (1, [Str ''east'', Num 4]), (2, [NA, Num 5])]\<rparr>"

definition amounts_only :: table where
  "amounts_only = \<lparr>columns = [''amount''], rows = [(0, [Num 10]), (1, [Num 5])]\<rparr>"

definition twelve_orders :: table where
  "twelve_orders = \<lparr>columns = [''order'', ''amount''],
                    rows = map (\<lambda>i. (i, [Num (of_nat i), Num (of_nat (12 - i))])) [0..<12]\<rparr>"

section \<open>Paging: the page count and the slices\<close>

lemma concat_pages_nat:
  "concat (map (\<lambda>k. take p (drop (k * p) xs)) [0..<m]) = take (m * p) xs"
proof (induction m)
  case 0
  show ?case by simp
next
  case (Suc m)
  have "take (m * p) xs @ take p (drop (m * p) xs) = take (m * p + p) xs"
    by (simp add: take_add)
  with Suc show ?case by (simp add: add.commute)
qed

lemma upto_as_upt: "[1..int m] = map (\<lambda>k. int k + 1) [0..<m]"
proof (induction m)
  case 0
  show ?case by simp
next
  case (Suc m)
  have "[1..int (Suc m)] = [1..int m] @ [int m + 1]"
    by (simp add: upto_rec2 add.commute)
  with Suc show ?case by simp
qed

lemma slice_take_drop:
  "take (min (s + p) (length xs) - min s (length xs)) (drop (min s (length xs)) xs)
     = take p (drop s xs)"
proof (cases "s < length xs")
  case True
  then have "min (s + p) (length xs) - min s (length xs) = min p (length xs - s)"
    by auto
  moreover have "take (min p (length xs - s)) (drop s xs) = take p (drop s xs)"
    by (cases "p \<le> length xs - s") (simp_all add: min_def)
  ultimately show ?thesis using True by simp
next
  case False
  then show ?thesis by simp
qed

lemma page_df_take_drop:
  assumes "0 < P" and "1 \<le> page"
  shows "page_df xs P page = take (nat P) (drop (nat (page - 1) * nat P) xs)"
proof -
  let ?s = "nat (page - 1) * nat P"
  let ?n = "length xs"
  have s: "nat ((page - 1) * P) = ?s"
    using assms by (simp add: nat_mult_distrib)
  have e: "nat ((page - 1) * P + P) = ?s + nat P"
    using assms s by (simp add: nat_add_distrib)
  have nonneg: "\<not> (page - 1) * P < 0" "\<not> (page - 1) * P + P < 0"
    using assms by (simp_all add: not_less)
  have "page_df xs P page = take (min (?s + nat P) ?n - min ?s ?n) (drop (min ?s ?n) xs)"
    using nonneg by (simp add: page_df_def iloc_def slice_bound_def s e Let_def)
  also have "\<dots> = take (nat P) (drop ?s xs)"
    by (rule slice_take_drop)
  finally show ?thesis .
qed

lemma total_pages_ceiling:
  assumes "0 < P" and "0 \<le> n"
  shows "total_pages n P = \<lceil>real_of_int n / real_of_int P\<rceil>"
proof -
  let ?q = "(n - 1) div P" and ?r = "(n - 1) mod P"
  have r: "0 \<le> ?r" "?r < P" using assms by simp_all
  have "- n = P * (- (?q + 1)) + (P - 1 - ?r)"
    using div_mult_mod_eq[of "n - 1" P] by (simp add: algebra_simps)
  moreover have "0 \<le> P - 1 - ?r" "P - 1 - ?r < P" using r by simp_all
  ultimately have "(- n) div P = - (?q + 1)"
    by (metis int_div_pos_eq)
  then show ?thesis
    by (simp add: total_pages_def ceiling_divide_eq_div)
qed

lemma take_drop_nth:
  "take p (drop s xs) = map ((!) xs) [s..<min (s + p) (length xs)]"
proof (rule nth_equalityI)
  show "length (take p (drop s xs)) = length (map ((!) xs) [s..<min (s + p) (length xs)])"
    by auto
next
  fix i
  assume "i < length (take p (drop s xs))"
  then have i: "i < p" "s + i < length xs" by auto
  then have "i < min (s + p) (length xs) - s" by auto
  with i show "take p (drop s xs) ! i = map ((!) xs) [s..<min (s + p) (length xs)] ! i"
    by simp
qed

lemma page_df_rows:
  assumes P: "0 < P" and page: "1 \<le> page"
  shows "page_df xs P page =
           map ((!) xs) [nat ((page - 1) * P)..<nat (min (page * P) (int (length xs)))]"
proof -
  have s: "nat (page - 1) * nat P = nat ((page - 1) * P)"
    using P page by (simp add: nat_mult_distrib)
  have "(page - 1) * P + P = page * P" by (simp add: algebra_simps)
  moreover have "0 \<le> (page - 1) * P" using P page by simp
  ultimately have e: "min (nat ((page - 1) * P) + nat P) (length xs)
      = nat (min (page * P) (int (length xs)))"
    using P by (simp add: min_def nat_add_distrib[symmetric] nat_le_iff le_nat_iff)
  show ?thesis
    using P page by (simp add: page_df_take_drop take_drop_nth s e)
qed

lemma last_page_start:
  assumes P: "0 < P" and page: "page \<le> total_pages n P"
  shows "(page - 1) * P < n"
proof -
  have "page - 1 \<le> (n - 1) div P"
    using page by (simp add: total_pages_def)
  then have "(page - 1) * P \<le> (n - 1) div P * P"
    using P by (simp add: mult_right_mono)
  also have "\<dots> \<le> n - 1"
  proof -
    have "n - 1 = (n - 1) div P * P + (n - 1) mod P" by simp
    moreover have "0 \<le> (n - 1) mod P" using P by simp
    ultimately show ?thesis by linarith
  qed
  finally show ?thesis by simp
qed

text \<open>
  C2. For a page size P between 5 and 40 and an aggregation \<open>xs\<close> of any length N: the
  page count is the ceiling of N / P; the slices of pages 1 to \<open>total_pages\<close>, in order,
  concatenate to \<open>xs\<close>; the slice of a page is rows (page - 1) * P up to, not including,
  min (page * P) N; and the row ranges of two different pages do not meet.
\<close>

theorem paging_partition:
  assumes "5 \<le> P" and "P \<le> 40"
  shows "total_pages (int (length xs)) P = \<lceil>real (length xs) / real_of_int P\<rceil>
       \<and> concat (map (page_df xs P) [1..total_pages (int (length xs)) P]) = xs
       \<and> (\<forall>page\<ge>1. page_df xs P page =
             map ((!) xs) [nat ((page - 1) * P)..<nat (min (page * P) (int (length xs)))])
       \<and> (\<forall>i j. 1 \<le> i \<and> i < j \<longrightarrow>
             {(i - 1) * P..<min (i * P) (int (length xs))}
               \<inter> {(j - 1) * P..<min (j * P) (int (length xs))} = {})"
proof -
  let ?n = "length xs"
  let ?m = "total_pages (int ?n) P"
  have P: "0 < P" using assms by simp
  have ceil: "?m = \<lceil>real ?n / real_of_int P\<rceil>"
    using total_pages_ceiling[OF P, of "int ?n"] by simp
  have m0: "0 \<le> ?m"
  proof -
    have "0 \<le> real ?n / real_of_int P" using P by simp
    then show ?thesis unfolding ceil by simp
  qed
  have cover: "?n \<le> nat ?m * nat P"
  proof -
    have "real ?n / real_of_int P \<le> real_of_int ?m"
      unfolding ceil by (rule le_of_int_ceiling)
    then have "real ?n \<le> real_of_int ?m * real_of_int P"
      using P by (simp add: pos_divide_le_eq)
    then have "int ?n \<le> ?m * P"
      by (metis of_int_le_iff of_int_mult of_int_of_nat_eq)
    then have "nat (int ?n) \<le> nat (?m * P)"
      by (rule nat_mono)
    then show ?thesis
      using m0 by (simp add: nat_mult_distrib)
  qed
  have "concat (map (page_df xs P) [1..?m])
      = concat (map (page_df xs P) (map (\<lambda>k. int k + 1) [0..<nat ?m]))"
    using upto_as_upt[of "nat ?m"] m0 by simp
  also have "\<dots> = concat (map (\<lambda>k. take (nat P) (drop (k * nat P) xs)) [0..<nat ?m])"
    using P by (simp add: page_df_take_drop comp_def)
  also have "\<dots> = take (nat ?m * nat P) xs"
    by (rule concat_pages_nat)
  also have "\<dots> = xs"
    using cover by simp
  finally have whole: "concat (map (page_df xs P) [1..?m]) = xs" .
  have slices: "\<forall>page\<ge>1. page_df xs P page =
             map ((!) xs) [nat ((page - 1) * P)..<nat (min (page * P) (int ?n))]"
    using P by (simp add: page_df_rows)
  have apart: "\<forall>i j. 1 \<le> i \<and> i < j \<longrightarrow>
             {(i - 1) * P..<min (i * P) (int ?n)} \<inter> {(j - 1) * P..<min (j * P) (int ?n)} = {}"
  proof (intro allI impI)
    fix i j :: int
    assume ij: "1 \<le> i \<and> i < j"
    then have "i * P \<le> (j - 1) * P"
      using P by (simp add: mult_right_mono)
    then show "{(i - 1) * P..<min (i * P) (int ?n)} \<inter> {(j - 1) * P..<min (j * P) (int ?n)} = {}"
      by auto
  qed
  from ceil whole slices apart show ?thesis by blast
qed

theorem paging_partition_witness:
  "(5::int) \<le> 5 \<and> (5::int) \<le> 40 \<and> total_pages (int (length [0..<12])) 5 = 3
     \<and> concat (map (page_df [0..<12] 5) [1..3]) = [0..<12]
     \<and> page_df [0..<12] 5 3 = [10, 11]"
proof -
  have h: "(5::int) \<le> 5" "(5::int) \<le> 40" by simp_all
  have t: "total_pages (int (length [0..<12])) 5 = 3" by (simp add: total_pages_def)
  have "page_df [0..<12] 5 3 = [10, 11]"
    by (simp add: page_df_def iloc_def slice_bound_def upt_rec)
  with h t paging_partition[OF h, of "[0..<12]"] show ?thesis by simp
qed

text \<open>
  A page index between 1 and \<open>total_pages\<close>, as the page slider gives it when it can be
  made, selects rows that exist: the slice is not empty.
\<close>

lemma page_in_range_not_empty:
  assumes P: "0 < P" and lo: "1 \<le> page" and hi: "page \<le> total_pages (int (length xs)) P"
  shows "page_df xs P page \<noteq> []"
proof -
  have "(page - 1) * P < int (length xs)"
    using P hi by (rule last_page_start)
  moreover have "0 \<le> (page - 1) * P"
    using P lo by simp
  ultimately have "nat ((page - 1) * P) < length xs"
    by (simp add: nat_less_iff)
  moreover have "nat (page - 1) * nat P = nat ((page - 1) * P)"
    using P lo by (simp add: nat_mult_distrib)
  ultimately show ?thesis
    using P by (simp add: page_df_take_drop[OF P lo])
qed

section \<open>Sums of groups\<close>

lemma series_sum_Nil: "series_sum [] = 0"
  by (simp add: series_sum_def)

lemma series_sum_Cons: "series_sum (c # cs) = num_or_zero c + series_sum cs"
  by (cases c) (simp_all add: series_sum_def)

lemma group_total_Cons:
  "group_total (p # kvs) k = (if fst p = k then num_or_zero (snd p) else 0) + group_total kvs k"
  by (simp add: group_total_def series_sum_Cons)

lemma sum_group_total:
  assumes "finite K" and "fst ` set kvs \<subseteq> K"
  shows "(\<Sum>k\<in>K. group_total kvs k) = series_sum (map snd kvs)"
  using assms(2)
proof (induction kvs)
  case Nil
  show ?case by (simp add: group_total_def series_sum_Nil)
next
  case (Cons p kvs)
  then have mem: "fst p \<in> K" and sub: "fst ` set kvs \<subseteq> K" by auto
  have "(\<Sum>k\<in>K. group_total (p # kvs) k)
      = (\<Sum>k\<in>K. if fst p = k then num_or_zero (snd p) else 0) + (\<Sum>k\<in>K. group_total kvs k)"
    by (simp add: group_total_Cons sum.distrib)
  also have "(\<Sum>k\<in>K. if fst p = k then num_or_zero (snd p) else 0) = num_or_zero (snd p)"
    using assms(1) mem by simp
  finally show ?case
    using Cons.IH[OF sub] by (simp add: series_sum_Cons)
qed

lemma groupby_sum_keys:
  "map fst (groupby_sum rank kvs) = sort_key rank (remdups (map fst kvs))"
  by (simp add: groupby_sum_def comp_def)

lemma groupby_sum_distinct: "distinct (map fst (groupby_sum rank kvs))"
  by (simp add: groupby_sum_keys)

lemma groupby_sum_set: "fst ` set (groupby_sum rank kvs) = fst ` set kvs"
  using arg_cong[OF groupby_sum_keys[of rank kvs], of set] by simp

lemma groupby_sum_member:
  "(k, s) \<in> set (groupby_sum rank kvs) \<longleftrightarrow> k \<in> fst ` set kvs \<and> s = group_total kvs k"
  by (auto simp: groupby_sum_def group_total_def)

lemma groupby_sum_total:
  "sum_list (map snd (groupby_sum rank kvs)) = series_sum (map snd kvs)"
proof -
  let ?ks = "sort_key rank (remdups (map fst kvs))"
  have "sum_list (map snd (groupby_sum rank kvs)) = sum_list (map (group_total kvs) ?ks)"
    by (simp add: groupby_sum_def group_total_def[abs_def] comp_def)
  also have "\<dots> = (\<Sum>k\<in>set ?ks. group_total kvs k)"
    by (rule sum_list_distinct_conv_sum_set) simp
  also have "\<dots> = series_sum (map snd kvs)"
    by (rule sum_group_total) simp_all
  finally show ?thesis .
qed

section \<open>Sorting by the sum\<close>

text \<open>What follows from the one property assumed of the sort.\<close>

lemma sorted_rows_same:
  assumes "sorts_descending sort_values"
  shows "mset (sort_values xs) = mset xs"
  using assms by (simp add: sorts_descending_def)

lemma sorted_rows_descending:
  assumes "sorts_descending sort_values"
  shows "sorted_wrt (\<lambda>a b. snd b \<le> snd a) (sort_values xs)"
  using assms by (simp add: sorts_descending_def)

lemma sorted_rows_set:
  assumes "sorts_descending sort_values"
  shows "set (sort_values xs) = set xs"
  using sorted_rows_same[OF assms, of xs] by (rule mset_eq_setD)

lemma sorted_rows_length:
  assumes "sorts_descending sort_values"
  shows "length (sort_values xs) = length xs"
  using sorted_rows_same[OF assms, of xs] by (rule mset_eq_length)

lemma sorted_rows_keys:
  assumes "sorts_descending sort_values"
  shows "mset (map fst (sort_values xs)) = mset (map fst xs)"
  using sorted_rows_same[OF assms, of xs] by (metis mset_map)

lemma sorted_rows_distinct:
  assumes "sorts_descending sort_values"
  shows "distinct (map fst (sort_values xs)) \<longleftrightarrow> distinct (map fst xs)"
  using sorted_rows_keys[OF assms, of xs] by (rule mset_eq_imp_distinct_iff)

lemma sorted_rows_total:
  assumes "sorts_descending sort_values"
  shows "sum_list (map snd (sort_values xs)) = sum_list (map snd xs)"
proof -
  have "mset (map snd (sort_values xs)) = mset (map snd xs)"
    using sorted_rows_same[OF assms, of xs] by (metis mset_map)
  then have "sum_mset (mset (map snd (sort_values xs))) = sum_mset (mset (map snd xs))"
    by simp
  then show ?thesis
    by (simp only: sum_mset_sum_list)
qed

lemma sort_values_sample_sorts: "sorts_descending sort_values_sample"
proof -
  have "sorted_wrt (\<lambda>a b. snd b \<le> snd a) (rev (sort_key snd xs))" for xs :: "(cell \<times> rat) list"
  proof -
    have "sorted (map snd (sort_key snd xs))"
      by (rule sorted_sort_key)
    then show ?thesis
      by (simp add: sorted_wrt_rev sorted_map)
  qed
  then show ?thesis
    by (simp add: sorts_descending_def sort_values_sample_def)
qed

section \<open>The grouped bar data\<close>

lemma getitem_length: "length (getitem df c) = length (rows df)"
  by (simp add: getitem_def)

lemma zip_getitem:
  "zip (getitem df a) (getitem df b)
     = map (\<lambda>r. (cell_at df a (snd r), cell_at df b (snd r))) (rows df)"
  by (simp add: getitem_def zip_map_map zip_same_conv_map)

lemma group_total_rows:
  "group_total (zip (getitem df a) (getitem df b)) k
     = series_sum (map (\<lambda>r. cell_at df b (snd r))
         (filter (\<lambda>r. cell_at df a (snd r) = k) (rows df)))"
  by (simp add: group_total_def zip_getitem filter_map comp_def)

lemma bar_df_Inr:
  assumes "bar_df sort_values filtered_df group_col value_col = Inr bar"
  shows "group_col \<noteq> value_col"
    and "bar = sort_values (groupby_sum cell_rank
           (zip (getitem filtered_df group_col) (getitem filtered_df value_col)))"
  using assms by (simp_all add: bar_df_def split: if_splits)

lemma bar_df_total:
  assumes "sorts_descending sort_values"
    and "bar_df sort_values filtered_df group_col value_col = Inr bar"
  shows "sum_list (map snd bar) = series_sum (getitem filtered_df value_col)"
  by (simp add: bar_df_Inr(2)[OF assms(2)] sorted_rows_total[OF assms(1)] groupby_sum_total
        getitem_length)

lemma bar_df_keys:
  assumes "sorts_descending sort_values"
    and "bar_df sort_values filtered_df group_col value_col = Inr bar"
  shows "distinct (map fst bar)" and "set (map fst bar) = set (getitem filtered_df group_col)"
proof -
  let ?kvs = "zip (getitem filtered_df group_col) (getitem filtered_df value_col)"
  note bar = bar_df_Inr(2)[OF assms(2)]
  show "distinct (map fst bar)"
    by (simp add: bar sorted_rows_distinct[OF assms(1)] groupby_sum_distinct)
  have "set (map fst bar) = fst ` set (groupby_sum cell_rank ?kvs)"
    by (simp add: bar sorted_rows_set[OF assms(1)])
  also have "\<dots> = fst ` set ?kvs"
    by (rule groupby_sum_set)
  also have "\<dots> = set (map fst ?kvs)"
    by simp
  also have "\<dots> = set (getitem filtered_df group_col)"
    by (simp add: getitem_length)
  finally show "set (map fst bar) = set (getitem filtered_df group_col)" .
qed

lemma bar_df_member:
  assumes "sorts_descending sort_values"
    and "bar_df sort_values filtered_df group_col value_col = Inr bar" and "(k, s) \<in> set bar"
  shows "s = series_sum (map (\<lambda>r. cell_at filtered_df value_col (snd r))
           (filter (\<lambda>r. cell_at filtered_df group_col (snd r) = k) (rows filtered_df)))"
  using assms(3)
  by (simp add: bar_df_Inr(2)[OF assms(2)] sorted_rows_set[OF assms(1)] groupby_sum_member
        group_total_rows)

text \<open>
  C1, as the code has it. The metric column holds numbers, as every column that the
  metric selectbox offers does, and the sort returns the rows it is given in descending
  order of the sum. When the grouped frame is made, it holds one pair per distinct value
  of the group column, each with the sum of the metric over its rows, and the pairs are
  sorted by sum, descending. Nothing is said of the order of groups with equal sums: it
  is the order the sort gives them, and the sort does not see in which order the keys
  first appear in the source table.
\<close>

theorem bar_df_sorted_by_sum:
  assumes "sorts_descending sort_values"
    and "bar_df sort_values filtered_df group_col value_col = Inr bar"
    and "numeric_series (getitem filtered_df value_col)"
  shows "sorted_wrt (\<lambda>a b. snd b \<le> snd a) bar
       \<and> distinct (map fst bar)
       \<and> set (map fst bar) = set (getitem filtered_df group_col)
       \<and> (\<forall>(k, s)\<in>set bar.
             s = series_sum (map (\<lambda>r. cell_at filtered_df value_col (snd r))
                   (filter (\<lambda>r. cell_at filtered_df group_col (snd r) = k) (rows filtered_df))))"
proof (intro conjI)
  show "sorted_wrt (\<lambda>a b. snd b \<le> snd a) bar"
    by (simp add: bar_df_Inr(2)[OF assms(2)] sorted_rows_descending[OF assms(1)])
  show "distinct (map fst bar)"
    by (rule bar_df_keys(1)[OF assms(1,2)])
  show "set (map fst bar) = set (getitem filtered_df group_col)"
    by (rule bar_df_keys(2)[OF assms(1,2)])
  show "\<forall>(k, s)\<in>set bar.
      s = series_sum (map (\<lambda>r. cell_at filtered_df value_col (snd r))
            (filter (\<lambda>r. cell_at filtered_df group_col (snd r) = k) (rows filtered_df)))"
  proof (rule ballI, rule case_prodI2)
    fix p k s
    assume "p \<in> set bar" and "p = (k, s)"
    then have "(k, s) \<in> set bar" by simp
    then show "s = series_sum (map (\<lambda>r. cell_at filtered_df value_col (snd r))
            (filter (\<lambda>r. cell_at filtered_df group_col (snd r) = k) (rows filtered_df)))"
      by (rule bar_df_member[OF assms(1,2)])
  qed
qed

lemma some_regions_grouped:
  "groupby_sum cell_rank (zip (getitem some_regions ''region'') (getitem some_regions ''amount''))
     = [(Str ''east'', 4), (NA, 8)]"
  by (simp add: some_regions_def getitem_def cell_at_def groupby_sum_def series_sum_def)

theorem bar_df_sorted_by_sum_witness:
  "bar_df sort_values_sample some_regions ''region'' ''amount'' = Inr [(NA, 8), (Str ''east'', 4)]
     \<and> sorted_wrt (\<lambda>a b. snd b \<le> snd a) [(NA, 8 :: rat), (Str ''east'', 4)]
     \<and> set (getitem some_regions ''region'') = {NA, Str ''east''}"
proof -
  have bar: "bar_df sort_values_sample some_regions ''region'' ''amount''
      = Inr [(NA, 8), (Str ''east'', 4)]"
    by (simp add: bar_df_def some_regions_grouped sort_values_sample_def)
  have metric: "numeric_series (getitem some_regions ''amount'')"
    by (simp add: numeric_series_def some_regions_def getitem_def cell_at_def)
  from bar_df_sorted_by_sum[OF sort_values_sample_sorts bar metric] bar show ?thesis
    by auto
qed

text \<open>
  In \<open>west_first\<close> west appears first, in \<open>east_first\<close> east does, and both have the sum 5.
  The two tables give the same grouped frame, east before west, so whatever the sort does
  with equal sums it gives one result for both: in one of the two tables the group that
  appears first does not come first.
\<close>

theorem first_appearance_not_kept:
  "getitem west_first ''region'' = [Str ''west'', Str ''east'']
     \<and> getitem east_first ''region'' = [Str ''east'', Str ''west'']
     \<and> groupby_sum cell_rank
          (zip (getitem west_first ''region'') (getitem west_first ''amount''))
         = [(Str ''east'', 5), (Str ''west'', 5)]
     \<and> groupby_sum cell_rank
          (zip (getitem east_first ''region'') (getitem east_first ''amount''))
         = [(Str ''east'', 5), (Str ''west'', 5)]
     \<and> (\<forall>sort_values. bar_df sort_values west_first ''region'' ''amount''
            = bar_df sort_values east_first ''region'' ''amount'')"
proof -
  have west: "groupby_sum cell_rank
      (zip (getitem west_first ''region'') (getitem west_first ''amount''))
    = [(Str ''east'', 5), (Str ''west'', 5)]"
    by (simp add: west_first_def getitem_def cell_at_def groupby_sum_def series_sum_def)
  have east: "groupby_sum cell_rank
      (zip (getitem east_first ''region'') (getitem east_first ''amount''))
    = [(Str ''east'', 5), (Str ''west'', 5)]"
    by (simp add: east_first_def getitem_def cell_at_def groupby_sum_def series_sum_def)
  have keys: "getitem west_first ''region'' = [Str ''west'', Str ''east'']"
    "getitem east_first ''region'' = [Str ''east'', Str ''west'']"
    by (simp_all add: west_first_def east_first_def getitem_def cell_at_def)
  have "\<forall>sort_values. bar_df sort_values west_first ''region'' ''amount''
      = bar_df sort_values east_first ''region'' ''amount''"
    by (simp add: bar_df_def west east)
  with west east keys show ?thesis
    by simp
qed

text \<open>
  C4, where the grouped frame is made (the group column is not the metric column): the
  sums of the groups add up to the sum of the metric over the table, and the rows with a
  missing group key form a group of their own.
\<close>

lemma group_sums_add_up:
  assumes "sorts_descending sort_values"
    and "bar_df sort_values filtered_df group_col value_col = Inr bar"
  shows "sum_list (map snd bar) = series_sum (getitem filtered_df value_col)
       \<and> (NA \<in> set (getitem filtered_df group_col) \<longrightarrow>
            (NA, series_sum (map (\<lambda>r. cell_at filtered_df value_col (snd r))
                   (filter (\<lambda>r. cell_at filtered_df group_col (snd r) = NA)
                      (rows filtered_df)))) \<in> set bar)"
proof -
  have "(NA, s) \<in> set bar \<Longrightarrow>
      s = series_sum (map (\<lambda>r. cell_at filtered_df value_col (snd r))
            (filter (\<lambda>r. cell_at filtered_df group_col (snd r) = NA) (rows filtered_df)))" for s
    by (rule bar_df_member[OF assms])
  moreover have "NA \<in> set (getitem filtered_df group_col) \<Longrightarrow> \<exists>s. (NA, s) \<in> set bar"
    using bar_df_keys(2)[OF assms] by force
  ultimately show ?thesis
    using bar_df_total[OF assms] by blast
qed

text \<open>
  C4 at a table with one numeric column, which is then both the metric and the group
  column (the default choice of both selectboxes): the metrics are shown, the grouped
  frame raises ValueError, and the pass ends there.
\<close>

theorem group_by_metric_raises:
  "bar_df sort_values_sample amounts_only ''amount'' ''amount'' = Inl ValueError
     \<and> app to_datetime_sample sort_values_sample amounts_only ''amount'' ''amount'' None (0, 0) 5 1
         = ([Metric ''Total'' (Some 15), Metric ''Average'' (Some (15 / 2)),
             Metric ''Max'' (Some 10), Info ''Select a date column to view time series.''],
            Raised ValueError)"
  by (simp add: app_def bar_df_def grouped_bar_def numeric_cols_def numeric_series_def
        date_filter_def amounts_only_def getitem_def cell_at_def key_metrics_def
        time_series_def series_sum_def series_mean_def series_max_def)

section \<open>The page slider\<close>

lemma grouped_bar_page:
  assumes "bar_df sort_values filtered_df group_col value_col = Inr bar"
    and "bar \<noteq> []"
    and "1 < total_pages (int (length bar)) bars_per_page"
    and "NA \<notin> set (map fst (page_df bar bars_per_page page))"
  shows "grouped_bar sort_values filtered_df group_col value_col bars_per_page page
           = Inr (BarPlot page (total_pages (int (length bar)) bars_per_page)
                    (page_df bar bars_per_page page))"
  using assms by (simp add: grouped_bar_def)

lemma grouped_bar_single_page:
  assumes "bar_df sort_values filtered_df group_col value_col = Inr bar"
    and "bar \<noteq> []"
    and "total_pages (int (length bar)) bars_per_page \<le> 1"
  shows "grouped_bar sort_values filtered_df group_col value_col bars_per_page page
           = Inl StreamlitInvalidMinMaxError"
  using assms by (simp add: grouped_bar_def)

lemma twelve_orders_bar:
  "bar_df sort_values_sample twelve_orders ''order'' ''amount''
     = Inr [(Num 0, 12), (Num 1, 11), (Num 2, 10), (Num 3, 9), (Num 4, 8), (Num 5, 7),
            (Num 6, 6), (Num 7, 5), (Num 8, 4), (Num 9, 3), (Num 10, 2), (Num 11, 1)]"
  by (simp add: bar_df_def twelve_orders_def getitem_def cell_at_def upt_rec
        groupby_sum_def sort_values_sample_def series_sum_def)

lemma twelve_orders_amounts:
  "getitem twelve_orders ''amount''
     = [Num 12, Num 11, Num 10, Num 9, Num 8, Num 7, Num 6, Num 5, Num 4, Num 3, Num 2, Num 1]"
  by (simp add: twelve_orders_def getitem_def cell_at_def upt_rec)

lemma twelve_orders_metrics:
  "key_metrics twelve_orders ''amount''
     = [Metric ''Total'' (Some 78), Metric ''Average'' (Some (13 / 2)), Metric ''Max'' (Some 12)]"
  by (simp add: key_metrics_def twelve_orders_amounts series_sum_def series_mean_def
        series_max_def)

lemma twelve_orders_pass:
  "app to_datetime_sample sort_values_sample twelve_orders ''amount'' ''order'' None (0, 0)
       bars_per_page page
     = (case grouped_bar sort_values_sample twelve_orders ''order'' ''amount'' bars_per_page page of
          Inl e \<Rightarrow> (key_metrics twelve_orders ''amount''
                      @ [Info ''Select a date column to view time series.''], Raised e)
        | Inr bars \<Rightarrow> (key_metrics twelve_orders ''amount''
                      @ [Info ''Select a date column to view time series.'', bars,
                         Hist (getitem twelve_orders ''amount'')], Finished))"
proof -
  have "numeric_cols twelve_orders \<noteq> []"
    by (simp add: numeric_cols_def numeric_series_def twelve_orders_def getitem_def
          cell_at_def upt_rec)
  moreover have "rows twelve_orders \<noteq> []"
    by (simp add: twelve_orders_def upt_rec)
  moreover have "numeric_series (getitem twelve_orders ''amount'')"
    by (simp add: twelve_orders_amounts numeric_series_def)
  moreover have "nums (getitem twelve_orders ''amount'') \<noteq> []"
    by (simp add: twelve_orders_amounts)
  ultimately show ?thesis
    by (simp add: app_def date_filter_def time_series_def Let_def split: sum.splits)
qed

text \<open>
  Twelve orders at 5 bars per view: three pages, and page 3 holds the last two groups.
\<close>

lemma twelve_orders_page_three:
  "app to_datetime_sample sort_values_sample twelve_orders ''amount'' ''order'' None (0, 0) 5 3
     = ([Metric ''Total'' (Some 78), Metric ''Average'' (Some (13 / 2)),
         Metric ''Max'' (Some 12), Info ''Select a date column to view time series.'',
         BarPlot 3 3 [(Num 10, 2), (Num 11, 1)],
         Hist [Num 12, Num 11, Num 10, Num 9, Num 8, Num 7, Num 6, Num 5, Num 4, Num 3,
               Num 2, Num 1]],
        Finished)"
proof -
  have "grouped_bar sort_values_sample twelve_orders ''order'' ''amount'' 5 3
      = Inr (BarPlot 3 3 [(Num 10, 2), (Num 11, 1)])"
    by (simp add: grouped_bar_def twelve_orders_bar total_pages_def page_df_def iloc_def
          slice_bound_def)
  then show ?thesis
    by (simp add: twelve_orders_pass twelve_orders_metrics twelve_orders_amounts)
qed

text \<open>
  C3 at twelve orders and 15 bars per view, the value the slider starts with: there is
  one page, so the page slider is asked for a range from 1 to 1 and raises
  StreamlitInvalidMinMaxError. No page index is obtained and no slice is shown, where
  the specification has the index brought into the range 1 to 1 and the twelve groups
  shown.
\<close>

theorem single_page_slider_raises:
  "total_pages 12 15 = 1
     \<and> grouped_bar sort_values_sample twelve_orders ''order'' ''amount'' 15 1
         = Inl StreamlitInvalidMinMaxError
     \<and> app to_datetime_sample sort_values_sample twelve_orders ''amount'' ''order'' None (0, 0) 15 1
         = ([Metric ''Total'' (Some 78), Metric ''Average'' (Some (13 / 2)),
             Metric ''Max'' (Some 12), Info ''Select a date column to view time series.''],
            Raised StreamlitInvalidMinMaxError)"
proof -
  have pages: "total_pages 12 15 = 1"
    by (simp add: total_pages_def)
  have slider: "grouped_bar sort_values_sample twelve_orders ''order'' ''amount'' 15 1
      = Inl StreamlitInvalidMinMaxError"
    by (simp add: grouped_bar_def twelve_orders_bar total_pages_def)
  from pages slider show ?thesis
    by (simp add: twelve_orders_pass twelve_orders_metrics)
qed

section \<open>Key metrics of a column without values\<close>

lemma nums_all_missing: "\<forall>c\<in>set cs. c = NA \<Longrightarrow> nums cs = []"
  by (induction cs) simp_all

text \<open>
  C5, as the code has it. When every value of the metric column is missing, no error is
  reported: the total is 0, and the average and the maximum are NaN.
\<close>

theorem all_missing_key_metrics:
  assumes "\<forall>c\<in>set (getitem filtered_df value_col). c = NA"
  shows "key_metrics filtered_df value_col
           = [Metric ''Total'' (Some 0), Metric ''Average'' None, Metric ''Max'' None]"
  using nums_all_missing[OF assms]
  by (simp add: key_metrics_def series_sum_def series_mean_def series_max_def)

theorem all_missing_key_metrics_witness:
  "getitem no_amounts ''amount'' = [NA, NA]
     \<and> key_metrics no_amounts ''amount''
         = [Metric ''Total'' (Some 0), Metric ''Average'' None, Metric ''Max'' None]"
proof -
  have cells: "getitem no_amounts ''amount'' = [NA, NA]"
    by (simp add: getitem_def no_amounts_def cell_at_def)
  then have "\<forall>c\<in>set (getitem no_amounts ''amount''). c = NA"
    by simp
  from all_missing_key_metrics[OF this] cells show ?thesis
    by simp
qed

text \<open>
  A pass over a table whose metric column has no value shows a total of 0 and an average
  and a maximum that are NaN, and goes on to the panels; with two groups it ends at the
  page slider.
\<close>

theorem all_missing_metrics_are_shown:
  "app to_datetime_sample sort_values_sample no_amounts ''amount'' ''region'' None (0, 0) 5 1
     = ([Metric ''Total'' (Some 0), Metric ''Average'' None, Metric ''Max'' None,
         Info ''Select a date column to view time series.''],
        Raised StreamlitInvalidMinMaxError)"
  by (simp add: app_def bar_df_def grouped_bar_def numeric_cols_def numeric_series_def
        date_filter_def no_amounts_def getitem_def cell_at_def key_metrics_def
        time_series_def series_sum_def series_mean_def series_max_def groupby_sum_def
        sort_values_sample_def total_pages_def)

section \<open>The time series\<close>

lemma dated_rows_keys:
  "fst ` set (concat (map (\<lambda>r. case dt_date (cell_at df dc (snd r)) of
                               None \<Rightarrow> []
                             | Some d \<Rightarrow> [(d, cell_at df vc (snd r))]) rs))
     = {d. \<exists>r\<in>set rs. dt_date (cell_at df dc (snd r)) = Some d}"
proof (induction rs)
  case Nil
  show ?case by simp
next
  case (Cons r rs)
  let ?keyed = "\<lambda>r. case dt_date (cell_at df dc (snd r)) of
                      None \<Rightarrow> []
                    | Some d \<Rightarrow> [(d, cell_at df vc (snd r))]"
  have head: "fst ` set (?keyed r) = {d. dt_date (cell_at df dc (snd r)) = Some d}"
    by (cases "dt_date (cell_at df dc (snd r))") auto
  have "fst ` set (concat (map ?keyed (r # rs)))
      = fst ` set (?keyed r) \<union> fst ` set (concat (map ?keyed rs))"
    by (simp only: list.map concat.simps set_append image_Un)
  also have "\<dots> = {d. dt_date (cell_at df dc (snd r)) = Some d}
      \<union> {d. \<exists>r\<in>set rs. dt_date (cell_at df dc (snd r)) = Some d}"
    by (simp only: head Cons.IH)
  also have "\<dots> = {d. \<exists>r'\<in>set (r # rs). dt_date (cell_at df dc (snd r')) = Some d}"
    by auto
  finally show ?case .
qed



lemma ts_df_dates:
  "set (map fst (ts_df df dc vc)) = {d. \<exists>r\<in>set (rows df). dt_date (cell_at df dc (snd r)) = Some d}"
proof -
  have "set (map fst (ts_df df dc vc)) = fst ` set (ts_df df dc vc)"
    by simp
  also have "\<dots> = {d. \<exists>r\<in>set (rows df). dt_date (cell_at df dc (snd r)) = Some d}"
    unfolding ts_df_def groupby_sum_set by (rule dated_rows_keys)
  finally show ?thesis .
qed






section \<open>Date filtering\<close>

lemma col_pos_Some: "c \<in> set cols \<Longrightarrow> \<exists>i. col_pos cols c = Some i"
  by (induction cols) auto

lemma col_pos_nth: "col_pos cols c = Some i \<Longrightarrow> i < length cols \<and> cols ! i = c"
  by (induction cols arbitrary: i) (auto split: if_splits)

lemma col_pos_append: "col_pos (cols @ [c]) c \<noteq> None"
  by (induction cols) auto

lemma cell_at_columns: "columns a = columns b \<Longrightarrow> cell_at a c cs = cell_at b c cs"
  by (simp add: cell_at_def)

lemma setitem_has_column: "col_pos (columns (setitem df c vs)) c \<noteq> None"
  by (cases "col_pos (columns df) c") (simp_all add: setitem_def col_pos_append)

lemma setitem_columns: "col_pos (columns df) c = Some i \<Longrightarrow> columns (setitem df c vs) = columns df"
  by (simp add: setitem_def)

lemma setitem_rows:
  "col_pos (columns df) c = Some i \<Longrightarrow>
     rows (setitem df c vs) = map (\<lambda>(r, v). (fst r, (snd r)[i := v])) (zip (rows df) vs)"
  by (simp add: setitem_def)

lemma dropna_columns: "columns (dropna df c) = columns df"
  by (simp add: dropna_def)

lemma between_dates_columns: "columns (between_dates df c s e) = columns df"
  by (simp add: between_dates_def)

lemma in_range_Ts: "in_range s e c \<Longrightarrow> \<exists>d t. c = Ts d t"
  by (cases c) (simp_all add: in_range_def)

lemma date_filter_columns:
  "columns (date_filter td df (Some dc) rng)
     = columns (setitem df dc (map ts_cell (td (getitem df dc))))"
  by (simp add: date_filter_def Let_def dropna_columns between_dates_columns)

lemma date_filter_subseq:
  "subseq (rows (date_filter td df (Some dc) rng))
     (rows (setitem df dc (map ts_cell (td (getitem df dc)))))"
  by (simp add: date_filter_def Let_def dropna_def between_dates_def
        subseq_order.order_trans[OF subseq_filter_left subseq_filter_left])

text \<open>The rows of a filtered table all lie in the range, whatever the table was.\<close>

lemma date_filter_in_range:
  assumes "r \<in> set (rows (date_filter td df (Some dc) rng))"
  shows "in_range (fst rng) (snd rng) (cell_at (date_filter td df (Some dc) rng) dc (snd r))"
proof -
  let ?parsed = "setitem df dc (map ts_cell (td (getitem df dc)))"
  let ?valid = "dropna ?parsed dc"
  show ?thesis
  proof (cases "rows ?valid = []")
    case True
    with assms show ?thesis by (simp add: date_filter_def Let_def)
  next
    case False
    then have out: "date_filter td df (Some dc) rng = between_dates ?valid dc (fst rng) (snd rng)"
      by (simp add: date_filter_def Let_def)
    have "cell_at (between_dates ?valid dc (fst rng) (snd rng)) dc (snd r) = cell_at ?valid dc (snd r)"
      by (rule cell_at_columns) (simp add: between_dates_columns)
    with assms show ?thesis
      unfolding out by (simp add: between_dates_def)
  qed
qed

lemma date_filter_has_column: "col_pos (columns (date_filter td df (Some dc) rng)) dc \<noteq> None"
  using setitem_has_column[of df dc] by (simp add: date_filter_columns)

lemma put_back_own_cell:
  "map (\<lambda>(r, v). (fst r, (snd r)[i := v]))
     (zip xs (map (\<lambda>r. if i < length (snd r) then snd r ! i else NA) xs)) = xs"
  by (induction xs) (simp_all add: list_update_beyond)

lemma setitem_same:
  assumes "col_pos (columns df) c \<noteq> None"
  shows "setitem df c (getitem df c) = df"
proof -
  from assms obtain i where i: "col_pos (columns df) c = Some i" by auto
  have "map (\<lambda>(r, v). (fst r, (snd r)[i := v])) (zip (rows df) (getitem df c)) = rows df"
    using put_back_own_cell[of i "rows df"] by (simp add: getitem_def cell_at_def i)
  then show ?thesis by (simp add: setitem_def i)
qed

lemma dropna_none_missing:
  assumes "\<forall>r\<in>set (rows df). cell_at df c (snd r) \<noteq> NA"
  shows "dropna df c = df"
  using assms by (simp add: dropna_def)

lemma between_dates_all_inside:
  assumes "\<forall>r\<in>set (rows df). in_range s e (cell_at df c (snd r))"
  shows "between_dates df c s e = df"
  using assms by (simp add: between_dates_def)

lemma cells_are_timestamps:
  assumes "\<forall>c\<in>set cs. \<exists>d t. c = Ts d t"
  shows "\<exists>ts. cs = map (\<lambda>p. Ts (fst p) (snd p)) ts"
proof -
  have "cs = map (\<lambda>p. Ts (fst p) (snd p))
               (map (\<lambda>c. case c of Ts d t \<Rightarrow> (d, t) | _ \<Rightarrow> (0, 0)) cs)"
    using assms by (induction cs) auto
  then show ?thesis ..
qed

lemma date_filter_fixed:
  assumes td: "\<And>ts. td (map (\<lambda>p. Ts (fst p) (snd p)) ts) = map Some ts"
    and col: "col_pos (columns df) dc \<noteq> None"
    and inside: "\<forall>r\<in>set (rows df). in_range (fst rng) (snd rng) (cell_at df dc (snd r))"
  shows "date_filter td df (Some dc) rng = df"
proof -
  have "\<forall>c\<in>set (getitem df dc). \<exists>d t. c = Ts d t"
    using inside by (auto simp: getitem_def dest: in_range_Ts)
  then obtain ts where ts: "getitem df dc = map (\<lambda>p. Ts (fst p) (snd p)) ts"
    using cells_are_timestamps by blast
  have "map ts_cell (td (getitem df dc)) = getitem df dc"
    by (simp add: ts td comp_def)
  then have parsed: "setitem df dc (map ts_cell (td (getitem df dc))) = df"
    using col by (simp add: setitem_same)
  have "\<forall>r\<in>set (rows df). cell_at df dc (snd r) \<noteq> NA"
    using inside by (fastforce simp: in_range_def)
  then have valid: "dropna df dc = df"
    by (rule dropna_none_missing)
  show ?thesis
    using inside by (simp add: date_filter_def parsed valid between_dates_all_inside)
qed

lemma to_datetime_sample_keeps:
  "to_datetime_sample (map (\<lambda>p. Ts (fst p) (snd p)) ts) = map Some ts"
  by (simp add: to_datetime_sample_def comp_def)

lemma to_datetime_sample_length: "length (to_datetime_sample cs) = length cs"
  by (simp add: to_datetime_sample_def)

text \<open>
  C8. Filtering a filtered table again, with the same date column and the same range,
  gives the same table: same columns, same rows with the same index labels and cells.
  What is used of \<open>to_datetime\<close>: a column that holds timestamps parses to itself.
\<close>

theorem date_filter_idempotent:
  assumes "\<And>ts. to_datetime (map (\<lambda>p. Ts (fst p) (snd p)) ts) = map Some ts"
  shows "date_filter to_datetime (date_filter to_datetime df date_col rng) date_col rng
           = date_filter to_datetime df date_col rng"
proof (cases date_col)
  case None
  then show ?thesis by (simp add: date_filter_def)
next
  case (Some dc)
  show ?thesis
    unfolding Some
    by (rule date_filter_fixed[OF assms date_filter_has_column])
       (simp add: date_filter_in_range)
qed

lemma sales_first_day:
  "date_filter to_datetime_sample sales (Some ''date'') (19723, 19723)
     = \<lparr>columns = [''date'', ''region'', ''amount''],
        rows = [(0, [Ts 19723 0, Str ''east'', Num 10]),
                (1, [Ts 19723 0, Str ''west'', Num 5])]\<rparr>"
  by (simp add: date_filter_def sales_def setitem_def getitem_def cell_at_def dropna_def
        between_dates_def in_range_def to_datetime_sample_def iso_days_def)

theorem date_filter_idempotent_witness:
  "date_filter to_datetime_sample
      \<lparr>columns = [''date'', ''region'', ''amount''],
        rows = [(0, [Ts 19723 0, Str ''east'', Num 10]),
                (1, [Ts 19723 0, Str ''west'', Num 5])]\<rparr> (Some ''date'') (19723, 19723)
     = \<lparr>columns = [''date'', ''region'', ''amount''],
        rows = [(0, [Ts 19723 0, Str ''east'', Num 10]),
                (1, [Ts 19723 0, Str ''west'', Num 5])]\<rparr>"
  using date_filter_idempotent[of to_datetime_sample sales "Some ''date''" "(19723, 19723)",
      OF to_datetime_sample_keeps]
  by (simp only: sales_first_day)

section \<open>The date block leaves the loaded table alone\<close>

lemma date_block_heap:
  assumes "df_ref s < length (heap s)"
  shows "df_ref (date_block td date_col rng s) = df_ref s"
    and "length (heap s) \<le> length (heap (date_block td date_col rng s))"
    and "\<forall>i<length (heap s). heap (date_block td date_col rng s) ! i = heap s ! i"
    and "heap (date_block td date_col rng s) ! filtered_ref (date_block td date_col rng s)
           = date_filter td (heap s ! df_ref s) date_col rng"
  using assms
  by (cases date_col;
      simp add: date_block_def new_object_def date_filter_def Let_def nth_append)+

lemma parsed_row:
  assumes pos: "col_pos (columns df) dc = Some i"
    and k: "k < length (rows df)" and len: "length vs = length (rows df)"
  shows "rows (setitem df dc vs) ! k = (fst (rows df ! k), (snd (rows df ! k))[i := vs ! k])"
  using k len by (simp add: setitem_rows[OF pos])

lemma other_column_kept:
  assumes pos: "col_pos cols dc = Some i" and other: "c \<noteq> dc"
  shows "(case col_pos cols c of None \<Rightarrow> NA
          | Some j \<Rightarrow> if j < length (cs[i := v]) then cs[i := v] ! j else NA)
       = (case col_pos cols c of None \<Rightarrow> NA
          | Some j \<Rightarrow> if j < length cs then cs ! j else NA)"
proof (cases "col_pos cols c")
  case None
  then show ?thesis by simp
next
  case (Some j)
  have "cols ! j = c" "cols ! i = dc"
    using col_pos_nth[OF Some] col_pos_nth[OF pos] by simp_all
  with other have "i \<noteq> j" by auto
  then show ?thesis by (simp add: Some)
qed

text \<open>
  C10. The date block works on a copy: the loaded table, and every object that existed
  before, is as it was. Its result has the columns of the loaded table; its rows are, in
  their original order, some of the rows of the table whose date column was replaced by
  the parsed values; in that table every row has its index label and every other cell
  unchanged; and every date cell of the result is a timestamp.
\<close>

theorem date_block_works_on_copy:
  assumes ref: "df_ref s < length (heap s)"
    and col: "dc \<in> set (columns (heap s ! df_ref s))"
    and rect: "\<forall>r\<in>set (rows (heap s ! df_ref s)).
                 length (snd r) = length (columns (heap s ! df_ref s))"
    and len: "length (to_datetime (getitem (heap s ! df_ref s) dc))
                = length (rows (heap s ! df_ref s))"
  shows "let df = heap s ! df_ref s;
             s' = date_block to_datetime (Some dc) rng s;
             out = heap s' ! filtered_ref s';
             parsed = setitem df dc (map ts_cell (to_datetime (getitem df dc)))
         in df_ref s' = df_ref s
          \<and> (\<forall>i<length (heap s). heap s' ! i = heap s ! i)
          \<and> out = date_filter to_datetime df (Some dc) rng
          \<and> columns out = columns df
          \<and> subseq (rows out) (rows parsed)
          \<and> length (rows parsed) = length (rows df)
          \<and> (\<forall>k<length (rows df).
                fst (rows parsed ! k) = fst (rows df ! k)
              \<and> cell_at parsed dc (snd (rows parsed ! k))
                  = ts_cell (to_datetime (getitem df dc) ! k)
              \<and> (\<forall>c. c \<noteq> dc \<longrightarrow>
                    cell_at parsed c (snd (rows parsed ! k)) = cell_at df c (snd (rows df ! k))))
          \<and> (\<forall>r\<in>set (rows out). \<exists>d t. cell_at out dc (snd r) = Ts d t)"
proof -
  define df where "df = heap s ! df_ref s"
  define s' where "s' = date_block to_datetime (Some dc) rng s"
  define vs where "vs = map ts_cell (to_datetime (getitem df dc))"
  define parsed where "parsed = setitem df dc vs"
  define out where "out = date_filter to_datetime df (Some dc) rng"
  from col obtain i where pos: "col_pos (columns df) dc = Some i"
    unfolding df_def using col_pos_Some by blast
  have i: "i < length (columns df)"
    using col_pos_nth[OF pos] by simp
  have vs_len: "length vs = length (rows df)"
    using len by (simp add: vs_def df_def)
  have cols: "columns parsed = columns df"
    unfolding parsed_def by (rule setitem_columns[OF pos])
  have a: "df_ref s' = df_ref s"
    unfolding s'_def by (rule date_block_heap(1)[OF ref])
  have b: "\<forall>i<length (heap s). heap s' ! i = heap s ! i"
    unfolding s'_def by (rule date_block_heap(3)[OF ref])
  have c: "heap s' ! filtered_ref s' = out"
    unfolding s'_def out_def df_def by (rule date_block_heap(4)[OF ref])
  have d: "columns out = columns df"
    unfolding out_def by (simp add: date_filter_columns setitem_columns[OF pos])
  have e: "subseq (rows out) (rows parsed)"
    unfolding out_def parsed_def vs_def by (rule date_filter_subseq)
  have f: "length (rows parsed) = length (rows df)"
    unfolding parsed_def by (simp add: setitem_rows[OF pos] vs_len)
  have g: "fst (rows parsed ! k) = fst (rows df ! k)
         \<and> cell_at parsed dc (snd (rows parsed ! k)) = ts_cell (to_datetime (getitem df dc) ! k)
         \<and> (\<forall>c. c \<noteq> dc \<longrightarrow>
               cell_at parsed c (snd (rows parsed ! k)) = cell_at df c (snd (rows df ! k)))"
    if k: "k < length (rows df)" for k
  proof -
    let ?cs = "snd (rows df ! k)"
    have row: "rows parsed ! k = (fst (rows df ! k), ?cs[i := vs ! k])"
      unfolding parsed_def by (rule parsed_row[OF pos k vs_len])
    have "rows df ! k \<in> set (rows df)"
      using k by simp
    then have wide: "i < length ?cs"
      using rect i by (simp add: df_def)
    have v: "vs ! k = ts_cell (to_datetime (getitem df dc) ! k)"
      using k len by (simp add: vs_def df_def)
    have date: "cell_at parsed dc (snd (rows parsed ! k)) = ts_cell (to_datetime (getitem df dc) ! k)"
      using wide by (simp add: cell_at_def cols pos row v)
    have others: "cell_at parsed c (snd (rows parsed ! k)) = cell_at df c ?cs" if "c \<noteq> dc" for c
      using other_column_kept[OF pos that, of ?cs "vs ! k"]
      by (simp add: cell_at_def cols row)
    from row date others show ?thesis by simp
  qed
  have h: "\<forall>r\<in>set (rows out). \<exists>d t. cell_at out dc (snd r) = Ts d t"
    unfolding out_def using date_filter_in_range in_range_Ts by blast
  from a b c d e f g h show ?thesis
    unfolding Let_def
    unfolding df_def[symmetric] s'_def[symmetric] vs_def[symmetric] parsed_def[symmetric]
    by (simp add: out_def[symmetric])
qed

theorem date_block_works_on_copy_witness:
  "heap (date_block to_datetime_sample (Some ''date'') (19723, 19723)
           \<lparr>heap = [sales], df_ref = 0, filtered_ref = 0\<rparr>) ! 0 = sales
   \<and> heap (date_block to_datetime_sample (Some ''date'') (19723, 19723)
           \<lparr>heap = [sales], df_ref = 0, filtered_ref = 0\<rparr>)
       ! filtered_ref (date_block to_datetime_sample (Some ''date'') (19723, 19723)
           \<lparr>heap = [sales], df_ref = 0, filtered_ref = 0\<rparr>)
     = \<lparr>columns = [''date'', ''region'', ''amount''],
        rows = [(0, [Ts 19723 0, Str ''east'', Num 10]),
                (1, [Ts 19723 0, Str ''west'', Num 5])]\<rparr>"
proof -
  let ?s = "\<lparr>heap = [sales], df_ref = 0, filtered_ref = 0\<rparr>"
  let ?s' = "date_block to_datetime_sample (Some ''date'') (19723, 19723) ?s"
  have ref: "df_ref ?s < length (heap ?s)"
    by simp
  have col: "''date'' \<in> set (columns (heap ?s ! df_ref ?s))"
    by (simp add: sales_def)
  have rect: "\<forall>r\<in>set (rows (heap ?s ! df_ref ?s)).
      length (snd r) = length (columns (heap ?s ! df_ref ?s))"
    by (simp add: sales_def)
  have len: "length (to_datetime_sample (getitem (heap ?s ! df_ref ?s) ''date''))
      = length (rows (heap ?s ! df_ref ?s))"
    by (simp add: to_datetime_sample_length getitem_length)
  note frame = date_block_works_on_copy[of ?s "''date''" to_datetime_sample "(19723, 19723)",
      OF ref col rect len, unfolded Let_def]
  have "\<forall>i<length (heap ?s). heap ?s' ! i = heap ?s ! i"
    by (rule frame[THEN conjunct2, THEN conjunct1])
  then have kept: "heap ?s' ! 0 = sales"
    by simp
  have "heap ?s' ! filtered_ref ?s'
      = date_filter to_datetime_sample (heap ?s ! df_ref ?s) (Some ''date'') (19723, 19723)"
    by (rule frame[THEN conjunct2, THEN conjunct2, THEN conjunct1])
  then have "heap ?s' ! filtered_ref ?s'
      = date_filter to_datetime_sample sales (Some ''date'') (19723, 19723)"
    by simp
  with kept show ?thesis
    by (simp only: sales_first_day simp_thms)
qed

section \<open>A pass that ends with no rows\<close>

lemma zip_all_missing:
  assumes "\<forall>v\<in>set vs. v = NA"
  shows "filter (\<lambda>r. (if i < length (snd r) then snd r ! i else NA) \<noteq> NA)
           (map (\<lambda>(r, v). (fst r, (snd r)[i := v])) (zip xs vs)) = []"
  using assms
proof (induction xs arbitrary: vs)
  case Nil
  show ?case by simp
next
  case (Cons x xs)
  then show ?case by (cases vs) simp_all
qed

lemma nothing_parsed:
  assumes col: "dc \<in> set (columns df)" and none: "\<forall>p\<in>set (td (getitem df dc)). p = None"
  shows "rows (date_filter td df (Some dc) rng) = []"
proof -
  from col obtain i where pos: "col_pos (columns df) dc = Some i"
    using col_pos_Some by blast
  let ?vs = "map ts_cell (td (getitem df dc))"
  have "\<forall>v\<in>set ?vs. v = NA"
    using none by auto
  then have "rows (dropna (setitem df dc ?vs) dc) = []"
    using zip_all_missing[of ?vs i "rows df"]
    by (simp add: dropna_def cell_at_def setitem_columns[OF pos] setitem_rows[OF pos] pos)
  then show ?thesis
    by (simp add: date_filter_def Let_def)
qed

lemma no_rows_stops:
  assumes "numeric_cols df \<noteq> []" and "rows (date_filter td df date_col rng) = []"
  shows "app td sort_values df value_col group_col date_col rng bars_per_page page
           = ([Warning ''No data available after filtering.''], Stopped)"
  using assms by (simp add: app_def Let_def)

text \<open>
  C6, as the code has it. With a date column selected, a pass over a table that has a
  numeric column halts with the warning "No data available after filtering." when every
  value fails to parse, and it halts with the same warning when some dates are valid and
  none lies in the range: the two conditions are not told apart.
\<close>

theorem empty_after_dates_one_warning:
  assumes "numeric_cols df \<noteq> []" and "dc \<in> set (columns df)"
  shows "((\<forall>p\<in>set (to_datetime (getitem df dc)). p = None) \<longrightarrow>
            app to_datetime sort_values df value_col group_col (Some dc) rng bars_per_page page
              = ([Warning ''No data available after filtering.''], Stopped))
       \<and> (rows (dropna (setitem df dc (map ts_cell (to_datetime (getitem df dc)))) dc) \<noteq> []
            \<and> rows (between_dates
                       (dropna (setitem df dc (map ts_cell (to_datetime (getitem df dc)))) dc)
                       dc (fst rng) (snd rng)) = [] \<longrightarrow>
            app to_datetime sort_values df value_col group_col (Some dc) rng bars_per_page page
              = ([Warning ''No data available after filtering.''], Stopped))"
proof (intro conjI impI)
  assume "\<forall>p\<in>set (to_datetime (getitem df dc)). p = None"
  then have "rows (date_filter to_datetime df (Some dc) rng) = []"
    by (rule nothing_parsed[OF assms(2)])
  with assms(1) show "app to_datetime sort_values df value_col group_col (Some dc) rng bars_per_page page
      = ([Warning ''No data available after filtering.''], Stopped)"
    by (rule no_rows_stops)
next
  assume "rows (dropna (setitem df dc (map ts_cell (to_datetime (getitem df dc)))) dc) \<noteq> []
      \<and> rows (between_dates
                 (dropna (setitem df dc (map ts_cell (to_datetime (getitem df dc)))) dc)
                 dc (fst rng) (snd rng)) = []"
  then have "rows (date_filter to_datetime df (Some dc) rng) = []"
    by (simp add: date_filter_def Let_def)
  with assms(1) show "app to_datetime sort_values df value_col group_col (Some dc) rng bars_per_page page
      = ([Warning ''No data available after filtering.''], Stopped)"
    by (rule no_rows_stops)
qed

lemma bad_dates_parse: "to_datetime_sample (getitem bad_dates ''date'') = [None, None]"
  by (simp add: to_datetime_sample_def getitem_def bad_dates_def cell_at_def iso_days_def)

lemma gap_days_parse:
  "to_datetime_sample (getitem gap_days ''date'') = [Some (19723, 0), Some (19725, 0)]"
  by (simp add: to_datetime_sample_def getitem_def gap_days_def cell_at_def iso_days_def)

lemma bad_dates_numeric: "numeric_cols bad_dates = [''amount'']"
  by (simp add: numeric_cols_def numeric_series_def bad_dates_def getitem_def cell_at_def)

lemma gap_days_numeric: "numeric_cols gap_days = [''amount'']"
  by (simp add: numeric_cols_def numeric_series_def gap_days_def getitem_def cell_at_def)

theorem empty_after_dates_one_warning_witness:
  "numeric_cols bad_dates \<noteq> [] \<and> ''date'' \<in> set (columns bad_dates)
     \<and> to_datetime_sample (getitem bad_dates ''date'') = [None, None]
     \<and> app to_datetime_sample sort_values_sample bad_dates ''amount'' ''date'' (Some ''date'')
           (19723, 19724) 5 1
         = ([Warning ''No data available after filtering.''], Stopped)"
proof -
  have num: "numeric_cols bad_dates \<noteq> []"
    by (simp add: bad_dates_numeric)
  have col: "''date'' \<in> set (columns bad_dates)"
    by (simp add: bad_dates_def)
  have none: "\<forall>p\<in>set (to_datetime_sample (getitem bad_dates ''date'')). p = None"
    by (simp add: bad_dates_parse)
  from empty_after_dates_one_warning[OF num col, of to_datetime_sample sort_values_sample
      "''amount''" "''date''" "(19723, 19724)" 5 1, THEN conjunct1] none
  have "app to_datetime_sample sort_values_sample bad_dates ''amount'' ''date'' (Some ''date'')
        (19723, 19724) 5 1
      = ([Warning ''No data available after filtering.''], Stopped)"
    by blast
  with num col bad_dates_parse show ?thesis
    by simp
qed

text \<open>
  No date of \<open>bad_dates\<close> parses. Both dates of \<open>gap_days\<close> parse, the 1st and the 3rd of
  January 2024, and the range picked is the 2nd alone, between the two. Both passes show
  the same single warning.
\<close>

theorem two_conditions_same_warning:
  "to_datetime_sample (getitem bad_dates ''date'') = [None, None]
     \<and> app to_datetime_sample sort_values_sample bad_dates ''amount'' ''date'' (Some ''date'')
           (19723, 19724) 5 1
         = ([Warning ''No data available after filtering.''], Stopped)
     \<and> to_datetime_sample (getitem gap_days ''date'') = [Some (19723, 0), Some (19725, 0)]
     \<and> app to_datetime_sample sort_values_sample gap_days ''amount'' ''region'' (Some ''date'')
           (19724, 19724) 5 1
         = ([Warning ''No data available after filtering.''], Stopped)"
proof -
  have "rows (date_filter to_datetime_sample bad_dates (Some ''date'') (19723, 19724)) = []"
    by (simp add: date_filter_def bad_dates_def setitem_def getitem_def cell_at_def dropna_def
          to_datetime_sample_def iso_days_def)
  then have bad: "app to_datetime_sample sort_values_sample bad_dates ''amount'' ''date''
      (Some ''date'') (19723, 19724) 5 1
    = ([Warning ''No data available after filtering.''], Stopped)"
    by (simp add: no_rows_stops bad_dates_numeric)
  have "rows (date_filter to_datetime_sample gap_days (Some ''date'') (19724, 19724)) = []"
    by (simp add: date_filter_def gap_days_def setitem_def getitem_def cell_at_def dropna_def
          between_dates_def in_range_def to_datetime_sample_def iso_days_def)
  then have gap: "app to_datetime_sample sort_values_sample gap_days ''amount'' ''region''
      (Some ''date'') (19724, 19724) 5 1
    = ([Warning ''No data available after filtering.''], Stopped)"
    by (simp add: no_rows_stops gap_days_numeric)
  from bad gap bad_dates_parse gap_days_parse show ?thesis
    by simp
qed

section \<open>A pass with too few dates for a series\<close>

lemma ts_df_length:
  "length (ts_df df dc vc)
     = card {d. \<exists>r\<in>set (rows df). dt_date (cell_at df dc (snd r)) = Some d}"
proof -
  have "distinct (map fst (ts_df df dc vc))"
    by (simp add: ts_df_def groupby_sum_distinct)
  then have "card (set (map fst (ts_df df dc vc))) = length (map fst (ts_df df dc vc))"
    by (rule distinct_card)
  then show ?thesis
    by (simp only: ts_df_dates length_map)
qed

lemma ts_df_short:
  assumes "card (set (map dt_date (getitem df dc))) < 2"
  shows "length (ts_df df dc vc) < 2"
proof -
  let ?D = "{d. \<exists>r\<in>set (rows df). dt_date (cell_at df dc (snd r)) = Some d}"
  have sub: "Some ` ?D \<subseteq> set (map dt_date (getitem df dc))"
    by (force simp: getitem_def image_iff)
  have "card ?D = card (Some ` ?D)"
    by (simp add: card_image)
  also have "\<dots> \<le> card (set (map dt_date (getitem df dc)))"
    using sub by (rule card_mono[rotated]) simp
  finally show ?thesis
    using assms by (simp add: ts_df_length)
qed

lemma bar_df_not_empty:
  assumes "sorts_descending sort_values"
    and "bar_df sort_values df group_col value_col = Inr bar" and "rows df \<noteq> []"
  shows "bar \<noteq> []"
proof -
  have "set (getitem df group_col) \<noteq> {}"
    using assms(3) by (simp add: getitem_def)
  then have "set (map fst bar) \<noteq> {}"
    using bar_df_keys(2)[OF assms(1,2)] by simp
  then show ?thesis by auto
qed

text \<open>
  C7, where the panels after the time series can be made: more than one page, no missing
  key on the page, a metric column with a value. With fewer than two distinct calendar
  dates the time series panel shows its warning in place of a plot and the pass goes on
  to the end.
\<close>

lemma short_series_pass_goes_on:
  assumes sorts: "sorts_descending sort_values"
    and filtered: "filtered_df = date_filter to_datetime df (Some dc) rng"
    and num: "numeric_cols df \<noteq> []"
    and some: "rows filtered_df \<noteq> []"
    and metric: "numeric_series (getitem filtered_df value_col)"
    and has_value: "nums (getitem filtered_df value_col) \<noteq> []"
    and bar: "bar_df sort_values filtered_df group_col value_col = Inr bar"
    and pages: "1 < total_pages (int (length bar)) bars_per_page"
    and keys: "NA \<notin> set (map fst (page_df bar bars_per_page page))"
    and few: "card (set (map dt_date (getitem filtered_df dc))) < 2"
  shows "app to_datetime sort_values df value_col group_col (Some dc) rng bars_per_page page
           = (key_metrics filtered_df value_col
                @ [Warning ''Not enough data for time series.'',
                   BarPlot page (total_pages (int (length bar)) bars_per_page)
                     (page_df bar bars_per_page page),
                   Hist (getitem filtered_df value_col)],
              Finished)"
proof -
  have "length (ts_df filtered_df dc value_col) < 2"
    using few by (rule ts_df_short)
  then have panel: "time_series filtered_df (Some dc) value_col
      = Warning ''Not enough data for time series.''"
    by (simp add: time_series_def)
  have "bar \<noteq> []"
    using sorts bar some by (rule bar_df_not_empty)
  then have "grouped_bar sort_values filtered_df group_col value_col bars_per_page page
      = Inr (BarPlot page (total_pages (int (length bar)) bars_per_page)
               (page_df bar bars_per_page page))"
    using bar pages keys by (simp add: grouped_bar_page)
  then show ?thesis
    using num some metric has_value panel by (simp add: app_def Let_def filtered[symmetric])
qed

lemma one_day_filtered:
  "date_filter to_datetime_sample one_day (Some ''date'') (19723, 19723)
     = \<lparr>columns = [''date'', ''region'', ''amount''],
        rows = [(0, [Ts 19723 0, Str ''east'', Num 10]),
                (2, [Ts 19723 0, Str ''west'', Num 5])]\<rparr>"
  by (simp add: date_filter_def one_day_def setitem_def getitem_def cell_at_def dropna_def
        between_dates_def in_range_def to_datetime_sample_def iso_days_def)

text \<open>
  C7 at the table \<open>one_day\<close>, whose two valid dates are the same day, over that day: the
  three metrics are shown and the time series panel shows its warning; the grouped frame
  has two groups, hence one page, and the page slider raises
  StreamlitInvalidMinMaxError. The pass ends there, with no page of the grouped
  aggregation and no distribution.
\<close>

theorem short_series_then_slider_raises:
  "ts_df (date_filter to_datetime_sample one_day (Some ''date'') (19723, 19723)) ''date'' ''amount''
     = [(19723, 15)]
   \<and> app to_datetime_sample sort_values_sample one_day ''amount'' ''region'' (Some ''date'')
         (19723, 19723) 5 1
       = ([Metric ''Total'' (Some 15), Metric ''Average'' (Some (15 / 2)),
           Metric ''Max'' (Some 10), Warning ''Not enough data for time series.''],
          Raised StreamlitInvalidMinMaxError)"
proof -
  define t where "t = \<lparr>columns = [''date'', ''region'', ''amount''],
        rows = [(0::nat, [Ts 19723 0, Str ''east'', Num 10]),
                (2, [Ts 19723 0, Str ''west'', Num 5])]\<rparr>"
  have filtered: "date_filter to_datetime_sample one_day (Some ''date'') (19723, 19723) = t"
    by (simp only: one_day_filtered t_def)
  have num: "numeric_cols one_day \<noteq> []"
    by (simp add: numeric_cols_def numeric_series_def one_day_def getitem_def cell_at_def)
  have some: "rows t \<noteq> []"
    by (simp add: t_def)
  have amounts: "getitem t ''amount'' = [Num 10, Num 5]"
    by (simp add: t_def getitem_def cell_at_def)
  have metric: "numeric_series (getitem t ''amount'')"
    by (simp add: amounts numeric_series_def)
  have points: "ts_df t ''date'' ''amount'' = [(19723, 15)]"
    by (simp add: ts_df_def t_def groupby_sum_def cell_at_def series_sum_def)
  have metrics: "key_metrics t ''amount''
      = [Metric ''Total'' (Some 15), Metric ''Average'' (Some (15 / 2)), Metric ''Max'' (Some 10)]"
    by (simp add: key_metrics_def amounts series_sum_def series_mean_def series_max_def)
  have panel: "time_series t (Some ''date'') ''amount''
      = Warning ''Not enough data for time series.''"
    by (simp add: time_series_def points)
  have "bar_df sort_values_sample t ''region'' ''amount''
      = Inr [(Str ''east'', 10), (Str ''west'', 5)]"
    by (simp add: bar_df_def t_def getitem_def cell_at_def groupby_sum_def
          sort_values_sample_def series_sum_def)
  then have slider: "grouped_bar sort_values_sample t ''region'' ''amount'' 5 1
      = Inl StreamlitInvalidMinMaxError"
    by (simp add: grouped_bar_def total_pages_def)
  have "app to_datetime_sample sort_values_sample one_day ''amount'' ''region'' (Some ''date'')
        (19723, 19723) 5 1
      = ([Metric ''Total'' (Some 15), Metric ''Average'' (Some (15 / 2)),
          Metric ''Max'' (Some 10), Warning ''Not enough data for time series.''],
         Raised StreamlitInvalidMinMaxError)"
    using num some metric by (simp add: app_def Let_def filtered metrics panel slider)
  with points show ?thesis
    by (simp only: filtered simp_thms)
qed

end
